theory Spec2Isabelle
  imports Complex_Main
begin

section \<open>The option toolbox of OptionGreeksToolbox.py\<close>

text \<open>
  The class holds five attributes, set once by the constructor. Every method is modelled
  as a function from the object before the call to a pair of the outcome and the object
  after the call, so that what a call does to the attributes is a fact to be proved.

  Floats are modelled by reals (no rounding, no overflow): a result \<open>Some v\<close> is the
  exact value of the expression the code evaluates, from which the double the code
  returns differs by the rounding of each operation. Equations between results hold of
  the exact values; what depends on the rounding itself is outside the model.

  A numpy value is a
  \<open>real option\<close>: \<open>Some v\<close> is the number \<open>v\<close>, and \<open>None\<close> stands for a value that
  real arithmetic does not determine, that is the logarithm of a non-positive number, the
  square root of a negative number, a quotient by zero, and everything computed from one
  of these (numpy only warns there and goes on with \<open>inf\<close> or \<open>nan\<close>). A Python exception
  is the left summand of a sum type.
\<close>

record toolbox =
  S :: real
  K :: real
  T :: real
  sigma :: real
  r :: real

datatype exn = ValueError | ZeroDivisionError | TypeError | RuntimeError

type_synonym npfloat = "real option"

type_synonym 'a outcome = "(exn + 'a) \<times> toolbox"

definition init :: "real \<Rightarrow> real \<Rightarrow> real \<Rightarrow> real \<Rightarrow> real \<Rightarrow> toolbox" where
  "init spot_price strike_price maturity volatility interest_rate =
     \<lparr>S = spot_price, K = strike_price, T = maturity, sigma = volatility,
      r = interest_rate\<rparr>"

subsection \<open>The numerical primitives\<close>

definition np_log :: "real \<Rightarrow> npfloat" where
  "np_log x = (if 0 < x then Some (ln x) else None)"

definition np_sqrt :: "real \<Rightarrow> npfloat" where
  "np_sqrt x = (if 0 \<le> x then Some (sqrt x) else None)"

definition np_add :: "npfloat \<Rightarrow> npfloat \<Rightarrow> npfloat" where
  "np_add a b = (case a of None \<Rightarrow> None
     | Some x \<Rightarrow> (case b of None \<Rightarrow> None | Some y \<Rightarrow> Some (x + y)))"

definition np_sub :: "npfloat \<Rightarrow> npfloat \<Rightarrow> npfloat" where
  "np_sub a b = (case a of None \<Rightarrow> None
     | Some x \<Rightarrow> (case b of None \<Rightarrow> None | Some y \<Rightarrow> Some (x - y)))"

definition np_mul :: "npfloat \<Rightarrow> npfloat \<Rightarrow> npfloat" where
  "np_mul a b = (case a of None \<Rightarrow> None
     | Some x \<Rightarrow> (case b of None \<Rightarrow> None | Some y \<Rightarrow> Some (x * y)))"

definition np_div :: "npfloat \<Rightarrow> npfloat \<Rightarrow> npfloat" where
  "np_div a b = (case a of None \<Rightarrow> None
     | Some x \<Rightarrow> (case b of None \<Rightarrow> None
         | Some y \<Rightarrow> (if y = 0 then None else Some (x / y))))"

definition np_neg :: "npfloat \<Rightarrow> npfloat" where
  "np_neg a = (case a of None \<Rightarrow> None | Some x \<Rightarrow> Some (- x))"

text \<open>
  \<open>scipy.stats.norm.cdf\<close> is the distribution function of the standard normal law. It
  is given here by its Maclaurin series
  \<open>1/2 + (1/sqrt (2 pi)) (x - x^3/6 + x^5/40 - ...)\<close>, which converges for every \<open>x\<close>.
\<close>

definition cdf_coeff :: "nat \<Rightarrow> real" where
  "cdf_coeff n = (- 1 / 2) ^ n / (fact n * real (2 * n + 1))"

definition cdf_series :: "real \<Rightarrow> real" where
  "cdf_series x = x * (\<Sum>n. cdf_coeff n * (x\<^sup>2) ^ n)"

definition norm_cdf :: "real \<Rightarrow> real" where
  "norm_cdf x = 1 / 2 + cdf_series x / sqrt (2 * pi)"

definition np_cdf :: "npfloat \<Rightarrow> npfloat" where
  "np_cdf a = (case a of None \<Rightarrow> None | Some x \<Rightarrow> Some (norm_cdf x))"

subsection \<open>The two pricers\<close>

definition black_scholes_european_call ::
  "real option \<Rightarrow> real option \<Rightarrow> real option \<Rightarrow> toolbox \<Rightarrow> npfloat outcome" where
  "black_scholes_european_call S_arg T_arg sigma_arg self =
     (let S_loc = (case S_arg of Some v \<Rightarrow> v | None \<Rightarrow> S self);
          T_loc = (case T_arg of Some v \<Rightarrow> v | None \<Rightarrow> T self);
          sigma_loc = (case sigma_arg of Some v \<Rightarrow> v | None \<Rightarrow> sigma self)
      in if K self = 0 then (Inl ZeroDivisionError, self)
         else
           let d1 = np_div
                      (np_add (np_log (S_loc / K self))
                         (Some ((r self + 0.5 * sigma_loc\<^sup>2) * T_loc)))
                      (np_mul (Some sigma_loc) (np_sqrt T_loc));
               d2 = np_sub d1 (np_mul (Some sigma_loc) (np_sqrt T_loc));
               call_price = np_sub (np_mul (Some S_loc) (np_cdf d1))
                              (np_mul (Some (K self * exp (- r self * T_loc))) (np_cdf d2))
           in (Inr call_price, self))"

definition black_scholes_european_put ::
  "real option \<Rightarrow> real option \<Rightarrow> real option \<Rightarrow> toolbox \<Rightarrow> npfloat outcome" where
  "black_scholes_european_put S_arg T_arg sigma_arg self =
     (let S_loc = (case S_arg of Some v \<Rightarrow> v | None \<Rightarrow> S self);
          T_loc = (case T_arg of Some v \<Rightarrow> v | None \<Rightarrow> T self);
          sigma_loc = (case sigma_arg of Some v \<Rightarrow> v | None \<Rightarrow> sigma self)
      in if K self = 0 then (Inl ZeroDivisionError, self)
         else
           let d1 = np_div
                      (np_add (np_log (S_loc / K self))
                         (Some ((r self + 0.5 * sigma_loc\<^sup>2) * T_loc)))
                      (np_mul (Some sigma_loc) (np_sqrt T_loc));
               d2 = np_sub d1 (np_mul (Some sigma_loc) (np_sqrt T_loc));
               put_price = np_sub
                             (np_mul (Some (K self * exp (- r self * T_loc)))
                                (np_cdf (np_neg d2)))
                             (np_mul (Some S_loc) (np_cdf (np_neg d1)))
           in (Inr put_price, self))"

subsection \<open>The dispatcher\<close>

text \<open>
  An \<open>option_type\<close> argument left out by the caller is \<open>None\<close>; the method then takes its
  default, the string \<open>call\<close>.
\<close>

definition calculate_black_scholes_option_price ::
  "string option \<Rightarrow> toolbox \<Rightarrow> npfloat outcome" where
  "calculate_black_scholes_option_price option_type_arg self =
     (let option_type = (case option_type_arg of Some k \<Rightarrow> k | None \<Rightarrow> ''call'')
      in if option_type = ''call'' then black_scholes_european_call None None None self
         else if option_type = ''put'' then black_scholes_european_put None None None self
         else (Inl ValueError, self))"

subsection \<open>Implied volatility\<close>

text \<open>
  The objective handed to the root finder returns a float for the two known kinds and
  falls off the end of its body, returning Python's \<open>None\<close>, for any other.
\<close>

datatype pyobj = PyNone | PyFloat npfloat

definition implied_volatility_func ::
  "real \<Rightarrow> string \<Rightarrow> real \<Rightarrow> toolbox \<Rightarrow> pyobj outcome" where
  "implied_volatility_func market_price option_type sigma_arg self =
     (if option_type = ''call'' then
        (case black_scholes_european_call None None (Some sigma_arg) self of
           (Inl e, self') \<Rightarrow> (Inl e, self')
         | (Inr v, self') \<Rightarrow> (Inr (PyFloat (np_sub v (Some market_price))), self'))
      else if option_type = ''put'' then
        (case black_scholes_european_put None None (Some sigma_arg) self of
           (Inl e, self') \<Rightarrow> (Inl e, self')
         | (Inr v, self') \<Rightarrow> (Inr (PyFloat (np_sub v (Some market_price))), self'))
      else (Inr PyNone, self))"

text \<open>
  \<open>scipy.optimize.newton\<close> is not part of the repository. All it can do with the
  objective is call it: a root finder is a strategy that either stops with an outcome or
  asks for the objective at a point and goes on from the answer. An exception raised by
  the objective is not caught and ends the search.
\<close>

datatype solver = Return "exn + npfloat" | Ask real "pyobj \<Rightarrow> solver"

primrec run_solver ::
  "solver \<Rightarrow> (real \<Rightarrow> toolbox \<Rightarrow> pyobj outcome) \<Rightarrow> toolbox \<Rightarrow> npfloat outcome" where
  "run_solver (Return v) func self = (v, self)"
| "run_solver (Ask x cont) func self =
     (case func x self of
        (Inl e, self') \<Rightarrow> (Inl e, self')
      | (Inr y, self') \<Rightarrow> run_solver (cont y) func self')"

definition calculate_implied_volatility ::
  "(real \<Rightarrow> solver) \<Rightarrow> real \<Rightarrow> string option \<Rightarrow> toolbox \<Rightarrow> npfloat outcome" where
  "calculate_implied_volatility newton market_price option_type_arg self =
     (let option_type = (case option_type_arg of Some k \<Rightarrow> k | None \<Rightarrow> ''call'')
      in run_solver (newton 0.2) (implied_volatility_func market_price option_type) self)"

subsection \<open>The Greeks\<close>

definition calculate_delta :: "string option \<Rightarrow> toolbox \<Rightarrow> npfloat outcome" where
  "calculate_delta option_type_arg self =
     (let option_type = (case option_type_arg of Some k \<Rightarrow> k | None \<Rightarrow> ''call'');
          epsilon = 0.001
      in if option_type = ''call'' then
           (case black_scholes_european_call (Some (S self + epsilon)) None None self of
              (Inl e, self1) \<Rightarrow> (Inl e, self1)
            | (Inr a, self1) \<Rightarrow>
                (case black_scholes_european_call (Some (S self1)) None None self1 of
                   (Inl e, self2) \<Rightarrow> (Inl e, self2)
                 | (Inr b, self2) \<Rightarrow>
                     (Inr (np_div (np_sub a b) (Some epsilon)), self2)))
         else if option_type = ''put'' then
           (case black_scholes_european_put (Some (S self + epsilon)) None None self of
              (Inl e, self1) \<Rightarrow> (Inl e, self1)
            | (Inr a, self1) \<Rightarrow>
                (case black_scholes_european_put (Some (S self1)) None None self1 of
                   (Inl e, self2) \<Rightarrow> (Inl e, self2)
                 | (Inr b, self2) \<Rightarrow>
                     (Inr (np_div (np_sub a b) (Some epsilon)), self2)))
         else (Inl ValueError, self))"

definition calculate_gamma :: "toolbox \<Rightarrow> npfloat outcome" where
  "calculate_gamma self =
     (let epsilon = 0.001
      in case black_scholes_european_call (Some (S self + epsilon)) None None self of
           (Inl e, self1) \<Rightarrow> (Inl e, self1)
         | (Inr a, self1) \<Rightarrow>
             (case black_scholes_european_call (Some (S self1)) None None self1 of
                (Inl e, self2) \<Rightarrow> (Inl e, self2)
              | (Inr b, self2) \<Rightarrow>
                  (case black_scholes_european_call (Some (S self2 - epsilon)) None None
                          self2 of
                     (Inl e, self3) \<Rightarrow> (Inl e, self3)
                   | (Inr c, self3) \<Rightarrow>
                       (Inr (np_div (np_add (np_sub a (np_mul (Some 2) b)) c)
                               (Some (epsilon\<^sup>2))), self3))))"

definition calculate_theta :: "string option \<Rightarrow> toolbox \<Rightarrow> npfloat outcome" where
  "calculate_theta option_type_arg self =
     (let option_type = (case option_type_arg of Some k \<Rightarrow> k | None \<Rightarrow> ''call'')
      in if option_type = ''call'' then
           (case black_scholes_european_call None (Some (T self - 1 / 252)) None self of
              (Inl e, self1) \<Rightarrow> (Inl e, self1)
            | (Inr a, self1) \<Rightarrow>
                (case black_scholes_european_call None (Some (T self1)) None self1 of
                   (Inl e, self2) \<Rightarrow> (Inl e, self2)
                 | (Inr b, self2) \<Rightarrow>
                     (Inr (np_div (np_sub a b) (Some (1 / 252))), self2)))
         else if option_type = ''put'' then
           (case black_scholes_european_put None (Some (T self - 1 / 252)) None self of
              (Inl e, self1) \<Rightarrow> (Inl e, self1)
            | (Inr a, self1) \<Rightarrow>
                (case black_scholes_european_put None (Some (T self1)) None self1 of
                   (Inl e, self2) \<Rightarrow> (Inl e, self2)
                 | (Inr b, self2) \<Rightarrow>
                     (Inr (np_div (np_sub a b) (Some (1 / 252))), self2)))
         else (Inl ValueError, self))"

definition calculate_vega :: "toolbox \<Rightarrow> npfloat outcome" where
  "calculate_vega self =
     (let epsilon = 0.001
      in case black_scholes_european_call None None (Some (sigma self + epsilon)) self of
           (Inl e, self1) \<Rightarrow> (Inl e, self1)
         | (Inr a, self1) \<Rightarrow>
             (case black_scholes_european_call None None (Some (sigma self1)) self1 of
                (Inl e, self2) \<Rightarrow> (Inl e, self2)
              | (Inr b, self2) \<Rightarrow>
                  (Inr (np_div (np_sub a b) (Some epsilon)), self2)))"

subsection \<open>The closed formulas, for comparison\<close>

text \<open>
  The value a parameter takes in a call: the override when one is given, the stored
  attribute otherwise.
\<close>

definition effective :: "real option \<Rightarrow> real \<Rightarrow> real" where
  "effective arg stored = (case arg of Some v \<Rightarrow> v | None \<Rightarrow> stored)"

text \<open>
  The Black-Scholes formulas over the reals, as functions of spot, strike, maturity,
  volatility and rate. The pricers are compared with them below.
\<close>

definition d1_formula :: "real \<Rightarrow> real \<Rightarrow> real \<Rightarrow> real \<Rightarrow> real \<Rightarrow> real" where
  "d1_formula s k t sg rt = (ln (s / k) + (rt + 0.5 * sg\<^sup>2) * t) / (sg * sqrt t)"

definition d2_formula :: "real \<Rightarrow> real \<Rightarrow> real \<Rightarrow> real \<Rightarrow> real \<Rightarrow> real" where
  "d2_formula s k t sg rt = d1_formula s k t sg rt - sg * sqrt t"

definition call_formula :: "real \<Rightarrow> real \<Rightarrow> real \<Rightarrow> real \<Rightarrow> real \<Rightarrow> real" where
  "call_formula s k t sg rt =
     s * norm_cdf (d1_formula s k t sg rt)
       - k * exp (- rt * t) * norm_cdf (d2_formula s k t sg rt)"

definition put_formula :: "real \<Rightarrow> real \<Rightarrow> real \<Rightarrow> real \<Rightarrow> real \<Rightarrow> real" where
  "put_formula s k t sg rt =
     k * exp (- rt * t) * norm_cdf (- d2_formula s k t sg rt)
       - s * norm_cdf (- d1_formula s k t sg rt)"

text \<open>
  Difference quotients of two or three outcomes: the first exception met, left to right,
  ends the computation; otherwise the quotient is formed in numpy arithmetic.
\<close>

definition difference_quotient ::
  "exn + npfloat \<Rightarrow> exn + npfloat \<Rightarrow> real \<Rightarrow> exn + npfloat" where
  "difference_quotient p q h =
     (case p of Inl e \<Rightarrow> Inl e
      | Inr a \<Rightarrow> (case q of Inl e \<Rightarrow> Inl e
          | Inr b \<Rightarrow> Inr (np_div (np_sub a b) (Some h))))"

definition second_difference ::
  "exn + npfloat \<Rightarrow> exn + npfloat \<Rightarrow> exn + npfloat \<Rightarrow> real \<Rightarrow> exn + npfloat" where
  "second_difference p q w h =
     (case p of Inl e \<Rightarrow> Inl e
      | Inr a \<Rightarrow> (case q of Inl e \<Rightarrow> Inl e
          | Inr b \<Rightarrow> (case w of Inl e \<Rightarrow> Inl e
              | Inr c \<Rightarrow>
                  Inr (np_div (np_add (np_sub a (np_mul (Some 2) b)) c) (Some (h\<^sup>2))))))"

subsection \<open>Auxiliary functions for the analysis of the distribution function\<close>

text \<open>
  The power series in \<open>u = x\<^sup>2\<close> behind \<open>cdf_series\<close>, an antiderivative of the
  \<open>m\<close>-th power of the cosine that vanishes at 0, and its value at \<open>pi / 2\<close>. They
  serve to bound the distribution function between 0 and 1.
\<close>

definition cdf_power :: "real \<Rightarrow> real" where
  "cdf_power u = (\<Sum>n. cdf_coeff n * u ^ n)"

fun cos_int :: "nat \<Rightarrow> real \<Rightarrow> real" where
  "cos_int 0 x = x"
| "cos_int (Suc 0) x = sin x"
| "cos_int (Suc (Suc m)) x =
     cos x ^ Suc m * sin x / real (m + 2) + real (m + 1) / real (m + 2) * cos_int m x"

definition wallis :: "nat \<Rightarrow> real" where
  "wallis m = cos_int m (pi / 2)"

section \<open>The pricers leave the object alone\<close>

lemma call_frame: "snd (black_scholes_european_call S_arg T_arg sigma_arg self) = self"
  by (simp add: black_scholes_european_call_def Let_def)

lemma put_frame: "snd (black_scholes_european_put S_arg T_arg sigma_arg self) = self"
  by (simp add: black_scholes_european_put_def Let_def)

lemma call_pair:
  "black_scholes_european_call S_arg T_arg sigma_arg self =
     (fst (black_scholes_european_call S_arg T_arg sigma_arg self), self)"
  by (metis call_frame prod.collapse)

lemma put_pair:
  "black_scholes_european_put S_arg T_arg sigma_arg self =
     (fst (black_scholes_european_put S_arg T_arg sigma_arg self), self)"
  by (metis put_frame prod.collapse)

lemma call_override:
  "fst (black_scholes_european_call S_arg T_arg sigma_arg self) =
   fst (black_scholes_european_call None None None
     (self\<lparr>S := effective S_arg (S self), T := effective T_arg (T self),
            sigma := effective sigma_arg (sigma self)\<rparr>))"
  by (simp add: black_scholes_european_call_def Let_def effective_def)

lemma put_override:
  "fst (black_scholes_european_put S_arg T_arg sigma_arg self) =
   fst (black_scholes_european_put None None None
     (self\<lparr>S := effective S_arg (S self), T := effective T_arg (T self),
            sigma := effective sigma_arg (sigma self)\<rparr>))"
  by (simp add: black_scholes_european_put_def Let_def effective_def)

lemma call_stored:
  "black_scholes_european_call (Some (S self)) None None self =
     black_scholes_european_call None None None self"
  "black_scholes_european_call None (Some (T self)) None self =
     black_scholes_european_call None None None self"
  "black_scholes_european_call None None (Some (sigma self)) self =
     black_scholes_european_call None None None self"
  by (simp_all add: black_scholes_european_call_def)

lemma put_stored:
  "black_scholes_european_put (Some (S self)) None None self =
     black_scholes_european_put None None None self"
  "black_scholes_european_put None (Some (T self)) None self =
     black_scholes_european_put None None None self"
  "black_scholes_european_put None None (Some (sigma self)) self =
     black_scholes_european_put None None None self"
  by (simp_all add: black_scholes_european_put_def)

lemma dispatcher_frame: "snd (calculate_black_scholes_option_price ot self) = self"
  by (simp add: calculate_black_scholes_option_price_def Let_def call_frame put_frame)

lemma objective_frame: "snd (implied_volatility_func mp k x self) = self"
  unfolding implied_volatility_func_def
  by (subst call_pair, subst put_pair) (simp split: sum.splits)

text \<open>
  A root finder that only calls an objective which leaves the object alone leaves the
  object alone: by induction on the strategy.
\<close>

lemma run_solver_frame:
  assumes "\<And>x s. snd (func x s) = s"
  shows "snd (run_solver sv func self) = self"
proof (induction sv)
  case (Return v)
  show ?case by simp
next
  case (Ask x cont)
  obtain res where res: "func x self = (res, self)"
    using assms [of x self] by (metis prod.collapse)
  show ?case
  proof (cases res)
    case (Inl e)
    with res show ?thesis by simp
  next
    case (Inr y)
    with res Ask.IH [of "cont y"] show ?thesis by simp
  qed
qed

lemma implied_volatility_frame:
  "snd (calculate_implied_volatility newton mp ot self) = self"
  by (simp add: calculate_implied_volatility_def Let_def run_solver_frame objective_frame)

section \<open>The Greeks as difference quotients\<close>

lemma delta_call_value:
  "fst (calculate_delta (Some ''call'') self) =
     difference_quotient
       (fst (black_scholes_european_call (Some (S self + 0.001)) None None self))
       (fst (black_scholes_european_call None None None self)) 0.001"
  unfolding calculate_delta_def difference_quotient_def Let_def
  by (subst call_pair, subst (2) call_pair) (simp add: call_stored split: sum.splits)

lemma delta_put_value:
  "fst (calculate_delta (Some ''put'') self) =
     difference_quotient
       (fst (black_scholes_european_put (Some (S self + 0.001)) None None self))
       (fst (black_scholes_european_put None None None self)) 0.001"
  unfolding calculate_delta_def difference_quotient_def Let_def
  by (subst put_pair, subst (2) put_pair) (simp add: put_stored split: sum.splits)

lemma theta_call_value:
  "fst (calculate_theta (Some ''call'') self) =
     difference_quotient
       (fst (black_scholes_european_call None (Some (T self - 1 / 252)) None self))
       (fst (black_scholes_european_call None None None self)) (1 / 252)"
  unfolding calculate_theta_def difference_quotient_def Let_def
  by (subst call_pair, subst (2) call_pair) (simp add: call_stored split: sum.splits)

lemma theta_put_value:
  "fst (calculate_theta (Some ''put'') self) =
     difference_quotient
       (fst (black_scholes_european_put None (Some (T self - 1 / 252)) None self))
       (fst (black_scholes_european_put None None None self)) (1 / 252)"
  unfolding calculate_theta_def difference_quotient_def Let_def
  by (subst put_pair, subst (2) put_pair) (simp add: put_stored split: sum.splits)

lemma gamma_value:
  "fst (calculate_gamma self) =
     second_difference
       (fst (black_scholes_european_call (Some (S self + 0.001)) None None self))
       (fst (black_scholes_european_call None None None self))
       (fst (black_scholes_european_call (Some (S self - 0.001)) None None self)) 0.001"
  unfolding calculate_gamma_def second_difference_def Let_def
  by (subst call_pair, subst (2) call_pair, subst (3) call_pair)
    (simp add: call_stored split: sum.splits)

lemma vega_value:
  "fst (calculate_vega self) =
     difference_quotient
       (fst (black_scholes_european_call None None (Some (sigma self + 0.001)) self))
       (fst (black_scholes_european_call None None None self)) 0.001"
  unfolding calculate_vega_def difference_quotient_def Let_def
  by (subst call_pair, subst (2) call_pair) (simp add: call_stored split: sum.splits)

lemma delta_frame: "snd (calculate_delta ot self) = self"
  unfolding calculate_delta_def Let_def
  by (subst call_pair, subst (2) call_pair, subst put_pair, subst (2) put_pair)
    (simp split: sum.splits)

lemma theta_frame: "snd (calculate_theta ot self) = self"
  unfolding calculate_theta_def Let_def
  by (subst call_pair, subst (2) call_pair, subst put_pair, subst (2) put_pair)
    (simp split: sum.splits)

lemma gamma_frame: "snd (calculate_gamma self) = self"
  unfolding calculate_gamma_def Let_def
  by (subst call_pair, subst (2) call_pair, subst (3) call_pair) (simp split: sum.splits)

lemma vega_frame: "snd (calculate_vega self) = self"
  unfolding calculate_vega_def Let_def
  by (subst call_pair, subst (2) call_pair) (simp split: sum.splits)

section \<open>The pricers on and off their domain\<close>

lemma call_in_domain:
  assumes "0 < effective S_arg (S self)" "0 < K self" "0 < effective T_arg (T self)"
    "0 < effective sigma_arg (sigma self)"
  shows "fst (black_scholes_european_call S_arg T_arg sigma_arg self) =
     Inr (Some (call_formula (effective S_arg (S self)) (K self) (effective T_arg (T self))
        (effective sigma_arg (sigma self)) (r self)))"
  using assms
  by (simp add: black_scholes_european_call_def Let_def effective_def np_log_def np_sqrt_def
      np_add_def np_sub_def np_mul_def np_div_def np_cdf_def call_formula_def d1_formula_def
      d2_formula_def split: option.splits)

lemma put_in_domain:
  assumes "0 < effective S_arg (S self)" "0 < K self" "0 < effective T_arg (T self)"
    "0 < effective sigma_arg (sigma self)"
  shows "fst (black_scholes_european_put S_arg T_arg sigma_arg self) =
     Inr (Some (put_formula (effective S_arg (S self)) (K self) (effective T_arg (T self))
        (effective sigma_arg (sigma self)) (r self)))"
  using assms
  by (simp add: black_scholes_european_put_def Let_def effective_def np_log_def np_sqrt_def
      np_add_def np_sub_def np_mul_def np_div_def np_cdf_def np_neg_def put_formula_def
      d1_formula_def d2_formula_def split: option.splits)

lemma call_off_domain:
  assumes "K self \<noteq> 0" "effective T_arg (T self) \<le> 0"
  shows "fst (black_scholes_european_call S_arg T_arg sigma_arg self) = Inr None"
  using assms
  by (simp add: black_scholes_european_call_def Let_def effective_def np_log_def np_sqrt_def
      np_add_def np_sub_def np_mul_def np_div_def np_cdf_def split: option.splits)

lemma put_off_domain:
  assumes "K self \<noteq> 0" "effective T_arg (T self) \<le> 0"
  shows "fst (black_scholes_european_put S_arg T_arg sigma_arg self) = Inr None"
  using assms
  by (simp add: black_scholes_european_put_def Let_def effective_def np_log_def np_sqrt_def
      np_add_def np_sub_def np_mul_def np_div_def np_cdf_def np_neg_def split: option.splits)

section \<open>The normal distribution function\<close>

lemma cdf_series_minus: "cdf_series (- x) = - cdf_series x"
  by (simp add: cdf_series_def)

lemma norm_cdf_symmetry: "norm_cdf x + norm_cdf (- x) = 1"
  by (simp add: norm_cdf_def cdf_series_minus)

lemma formula_parity:
  "call_formula s k t sg rt - put_formula s k t sg rt = s - k * exp (- rt * t)"
proof -
  have a: "norm_cdf (- d1_formula s k t sg rt) = 1 - norm_cdf (d1_formula s k t sg rt)"
    using norm_cdf_symmetry [of "d1_formula s k t sg rt"] by simp
  have b: "norm_cdf (- d2_formula s k t sg rt) = 1 - norm_cdf (d2_formula s k t sg rt)"
    using norm_cdf_symmetry [of "d2_formula s k t sg rt"] by simp
  show ?thesis
    unfolding call_formula_def put_formula_def a b by (simp add: algebra_simps)
qed

subsection \<open>The series converges and its derivative is the Gaussian density\<close>

lemma cdf_coeff_summable: "summable (\<lambda>n. cdf_coeff n * y ^ n)"
proof (rule summable_comparison_test')
  show "summable (\<lambda>n. (\<bar>y\<bar> / 2) ^ n /\<^sub>R fact n)"
    using exp_converges [of "\<bar>y\<bar> / 2"] by (rule sums_summable)
next
  fix n :: nat
  have "norm (cdf_coeff n * y ^ n) = (\<bar>y\<bar> / 2) ^ n / fact n / real (2 * n + 1)"
    by (simp add: cdf_coeff_def abs_mult power_abs power_divide abs_divide
        del: of_nat_add of_nat_mult)
  also have "\<dots> \<le> (\<bar>y\<bar> / 2) ^ n / fact n"
    using divide_left_mono [of 1 "real (2 * n + 1)" "(\<bar>y\<bar> / 2) ^ n / fact n"] by simp
  finally show "norm (cdf_coeff n * y ^ n) \<le> (\<bar>y\<bar> / 2) ^ n /\<^sub>R fact n"
    by (simp add: scaleR_conv_of_real field_simps)
qed


lemma cdf_power_deriv:
  "(cdf_power has_real_derivative (\<Sum>n. diffs cdf_coeff n * u ^ n)) (at u)"
  unfolding cdf_power_def
  by (rule termdiffs_strong_converges_everywhere) (rule cdf_coeff_summable)

lemma cdf_power_ode:
  "cdf_power u + 2 * u * (\<Sum>n. diffs cdf_coeff n * u ^ n) = exp (- u / 2)"
proof -
  have s1: "(\<lambda>n. cdf_coeff n * u ^ n) sums cdf_power u"
    unfolding cdf_power_def using cdf_coeff_summable by (rule summable_sums)
  have "summable (\<lambda>n. diffs cdf_coeff n * u ^ n)"
    by (rule termdiff_converges_all) (rule cdf_coeff_summable)
  then have "(\<lambda>n. diffs cdf_coeff n * u ^ n) sums (\<Sum>n. diffs cdf_coeff n * u ^ n)"
    by (rule summable_sums)
  then have "(\<lambda>n. 2 * u * (diffs cdf_coeff n * u ^ n))
      sums (2 * u * (\<Sum>n. diffs cdf_coeff n * u ^ n))"
    by (rule sums_mult)
  then have "(\<lambda>n. 2 * real (Suc n) * cdf_coeff (Suc n) * u ^ Suc n)
      sums (2 * u * (\<Sum>n. diffs cdf_coeff n * u ^ n))"
    by (simp add: diffs_def mult_ac)
  then have s2: "(\<lambda>n. 2 * real n * cdf_coeff n * u ^ n)
      sums (2 * u * (\<Sum>n. diffs cdf_coeff n * u ^ n))"
    using sums_Suc_iff [of "\<lambda>n. 2 * real n * cdf_coeff n * u ^ n"] by simp
  have "(\<lambda>n. cdf_coeff n * u ^ n + 2 * real n * cdf_coeff n * u ^ n)
      sums (cdf_power u + 2 * u * (\<Sum>n. diffs cdf_coeff n * u ^ n))"
    using s1 s2 by (rule sums_add)
  moreover have "cdf_coeff n * u ^ n + 2 * real n * cdf_coeff n * u ^ n
      = (- u / 2) ^ n /\<^sub>R fact n" for n
  proof -
    have "cdf_coeff n * u ^ n + 2 * real n * cdf_coeff n * u ^ n
        = (real (2 * n + 1) * cdf_coeff n) * u ^ n"
      by (simp add: algebra_simps)
    also have "real (2 * n + 1) * cdf_coeff n = (- 1 / 2) ^ n / fact n"
      unfolding cdf_coeff_def by (simp del: of_nat_add of_nat_mult)
    also have "(- 1 / 2) ^ n / fact n * u ^ n = (- u / 2) ^ n /\<^sub>R fact n"
    proof -
      have "(- u / 2) ^ n = (- 1 / 2) ^ n * u ^ n"
        using power_mult_distrib [of "- 1 / 2" u n] by simp
      then show ?thesis
        by (simp add: field_simps)
    qed
    finally show ?thesis .
  qed
  ultimately have "(\<lambda>n. (- u / 2) ^ n /\<^sub>R fact n)
      sums (cdf_power u + 2 * u * (\<Sum>n. diffs cdf_coeff n * u ^ n))"
    by simp
  then show ?thesis
    using exp_converges [of "- u / 2"] sums_unique2 by blast
qed

lemma cdf_series_deriv: "(cdf_series has_real_derivative exp (- x\<^sup>2 / 2)) (at x)"
proof -
  have eq: "cdf_series = (\<lambda>x. x * cdf_power (x\<^sup>2))"
    by (intro ext) (simp add: cdf_series_def cdf_power_def)
  have "((\<lambda>x. cdf_power (x\<^sup>2)) has_real_derivative
      (\<Sum>n. diffs cdf_coeff n * (x\<^sup>2) ^ n) * (2 * x)) (at x)"
    by (rule DERIV_chain' [OF _ cdf_power_deriv]) (auto intro!: derivative_eq_intros)
  then have "((\<lambda>x. x * cdf_power (x\<^sup>2)) has_real_derivative
      1 * cdf_power (x\<^sup>2) + (\<Sum>n. diffs cdf_coeff n * (x\<^sup>2) ^ n) * (2 * x) * x) (at x)"
    by (rule DERIV_mult [OF DERIV_ident])
  moreover have "1 * cdf_power (x\<^sup>2) + (\<Sum>n. diffs cdf_coeff n * (x\<^sup>2) ^ n) * (2 * x) * x
      = exp (- x\<^sup>2 / 2)"
    using cdf_power_ode [of "x\<^sup>2"] by (simp add: power2_eq_square mult_ac)
  ultimately show ?thesis
    unfolding eq by simp
qed

lemma cdf_series_zero: "cdf_series 0 = 0"
  by (simp add: cdf_series_def)

subsection \<open>Antiderivatives of the powers of the cosine\<close>

lemma cos_int_deriv: "(cos_int m has_real_derivative cos x ^ m) (at x)"
proof (induction m x rule: cos_int.induct)
  case (1 x)
  have "cos_int 0 = (\<lambda>x. x)" by (intro ext) simp
  then show ?case by simp
next
  case (2 x)
  have "cos_int (Suc 0) = sin" by (intro ext) simp
  then show ?case by (auto intro!: derivative_eq_intros)
next
  case (3 m x)
  have eq: "cos_int (Suc (Suc m)) =
      (\<lambda>x. cos x ^ Suc m * sin x / real (m + 2) + real (m + 1) / real (m + 2) * cos_int m x)"
    by (intro ext) simp
  have s2: "(sin x)\<^sup>2 = 1 - (cos x)\<^sup>2"
    using sin_cos_squared_add [of x] by linarith
  have "((\<lambda>x. cos x ^ Suc m * sin x / real (m + 2)
          + real (m + 1) / real (m + 2) * cos_int m x) has_real_derivative
       (real (Suc m) * cos x ^ m * (- sin x) * sin x + cos x ^ Suc m * cos x) / real (m + 2)
          + real (m + 1) / real (m + 2) * cos x ^ m) (at x)"
    apply (rule derivative_eq_intros "3.IH" refl | simp)+
    apply (simp add: mult_ac)
    done
  moreover have "(real (Suc m) * cos x ^ m * (- sin x) * sin x + cos x ^ Suc m * cos x)
        / real (m + 2) + real (m + 1) / real (m + 2) * cos x ^ m
      = cos x ^ Suc (Suc m)"
  proof -
    have "real (Suc m) * cos x ^ m * (- sin x) * sin x + cos x ^ Suc m * cos x
        + real (m + 1) * cos x ^ m
        = real (m + 1) * cos x ^ m * (1 - (sin x)\<^sup>2) + cos x ^ Suc m * cos x"
      by (simp add: algebra_simps power2_eq_square)
    also have "\<dots> = real (m + 2) * cos x ^ Suc (Suc m)"
      unfolding s2 by (simp add: algebra_simps power2_eq_square)
    finally have "real (Suc m) * cos x ^ m * (- sin x) * sin x + cos x ^ Suc m * cos x
        + real (m + 1) * cos x ^ m = real (m + 2) * cos x ^ Suc (Suc m)" .
    then have "(real (Suc m) * cos x ^ m * (- sin x) * sin x + cos x ^ Suc m * cos x
        + real (m + 1) * cos x ^ m) / real (m + 2) = cos x ^ Suc (Suc m)"
      by (simp del: power_Suc of_nat_Suc of_nat_add)
    then show ?thesis
      by (simp only: add_divide_distrib times_divide_eq_left)
  qed
  ultimately show ?case
    unfolding eq by simp
qed

lemma cos_int_zero: "cos_int m 0 = 0"
  by (induction m "0::real" rule: cos_int.induct) simp_all

lemma wallis_0: "wallis 0 = pi / 2"
  by (simp add: wallis_def)

lemma wallis_1: "wallis (Suc 0) = 1"
  by (simp add: wallis_def)

lemma wallis_rec: "wallis (Suc (Suc m)) = real (m + 1) / real (m + 2) * wallis m"
  by (simp add: wallis_def)

lemma wallis_pos: "0 < wallis m"
proof (induction m rule: induct_nat_012)
  case 0
  show ?case by (simp add: wallis_0)
next
  case 1
  show ?case by (simp add: wallis_1)
next
  case (ge2 n)
  then show ?case
    unfolding wallis_rec by (simp del: of_nat_add of_nat_Suc)
qed

lemma wallis_prod: "real (m + 1) * wallis (Suc m) * wallis m = pi / 2"
proof (induction m)
  case 0
  show ?case by (simp add: wallis_0 wallis_1)
next
  case (Suc m)
  have "real (m + 2) * wallis (Suc (Suc m)) = real (m + 1) * wallis m"
    unfolding wallis_rec by (simp del: of_nat_add)
  then have "real (Suc m + 1) * wallis (Suc (Suc m)) * wallis (Suc m)
      = real (m + 1) * wallis m * wallis (Suc m)"
    by (simp add: add.commute)
  also have "\<dots> = pi / 2"
    using Suc by (simp add: mult_ac)
  finally show ?case .
qed

lemma cos_int_mono:
  assumes "0 \<le> a" "a \<le> b" "b \<le> pi / 2"
  shows "cos_int m a \<le> cos_int m b"
proof (rule DERIV_nonneg_imp_nondecreasing [OF assms(2)])
  fix x assume "a \<le> x" "x \<le> b"
  then have "0 \<le> cos x"
    using assms by (intro cos_ge_zero) linarith+
  then have "0 \<le> cos x ^ m" by simp
  then show "\<exists>y. (cos_int m has_real_derivative y) (at x) \<and> 0 \<le> y"
    using cos_int_deriv by blast
qed

lemma wallis_mono: "wallis (Suc m) \<le> wallis m"
proof -
  have "cos_int m 0 - cos_int (Suc m) 0 \<le> cos_int m (pi / 2) - cos_int (Suc m) (pi / 2)"
  proof (rule DERIV_nonneg_imp_nondecreasing
      [where f = "\<lambda>x. cos_int m x - cos_int (Suc m) x" and a = 0 and b = "pi / 2"])
    show "(0::real) \<le> pi / 2" by simp
  next
    fix x :: real assume x: "0 \<le> x" "x \<le> pi / 2"
    have c: "0 \<le> cos x" using x by (intro cos_ge_zero) linarith+
    have "((\<lambda>x. cos_int m x - cos_int (Suc m) x) has_real_derivative
        cos x ^ m - cos x ^ Suc m) (at x)"
      by (intro DERIV_diff cos_int_deriv)
    moreover have "0 \<le> cos x ^ m - cos x ^ Suc m"
    proof -
      have "cos x ^ m - cos x ^ Suc m = cos x ^ m * (1 - cos x)"
        by (simp add: algebra_simps)
      also have "0 \<le> cos x ^ m * (1 - cos x)"
        using c by (intro mult_nonneg_nonneg) simp_all
      finally show ?thesis .
    qed
    ultimately show "\<exists>y. ((\<lambda>x. cos_int m x - cos_int (Suc m) x) has_real_derivative y) (at x)
        \<and> 0 \<le> y"
      by blast
  qed
  then show ?thesis
    by (simp add: cos_int_zero wallis_def)
qed

lemma wallis_sq: "(wallis (Suc m))\<^sup>2 \<le> pi / (2 * real (m + 1))"
proof -
  have "(wallis (Suc m))\<^sup>2 = wallis (Suc m) * wallis (Suc m)"
    by (simp add: power2_eq_square)
  also have "\<dots> \<le> wallis (Suc m) * wallis m"
    using wallis_mono [of m] wallis_pos [of "Suc m"] by (intro mult_left_mono) simp_all
  also have "\<dots> = pi / (2 * real (m + 1))"
    using wallis_prod [of m] by (simp add: field_simps)
  finally show ?thesis .
qed

lemma exp_tan_bound:
  assumes "cos y \<noteq> 0"
  shows "exp (- (real k * (tan y)\<^sup>2)) \<le> (cos y)\<^sup>2 ^ k"
proof -
  have pos: "0 < 1 + (tan y)\<^sup>2"
    by (simp add: add_pos_nonneg)
  have "exp (- (tan y)\<^sup>2) = inverse (exp ((tan y)\<^sup>2))"
    by (simp add: exp_minus)
  also have "\<dots> \<le> inverse (1 + (tan y)\<^sup>2)"
    using pos by (intro le_imp_inverse_le) simp_all
  also have "\<dots> = (cos y)\<^sup>2"
    using tan_sec [OF assms] by (simp add: power_inverse)
  finally have one: "exp (- (tan y)\<^sup>2) \<le> (cos y)\<^sup>2" .
  have "exp (- (real k * (tan y)\<^sup>2)) = exp (real k * (- (tan y)\<^sup>2))"
    by simp
  also have "\<dots> = exp (- (tan y)\<^sup>2) ^ k"
    by (rule exp_of_nat_mult)
  also have "\<dots> \<le> (cos y)\<^sup>2 ^ k"
    using one by (intro power_mono) simp_all
  finally show ?thesis .
qed

subsection \<open>The distribution function lies between 0 and 1\<close>

text \<open>
  Along \<open>x = sqrt (2 n) tan y\<close> the density is at most \<open>cos y ^ (2 n)\<close>, so the series
  is bounded by a multiple of a Wallis integral; letting \<open>n\<close> grow gives the bound
  \<open>sqrt (pi / 2)\<close>.
\<close>

lemma cdf_series_nonneg:
  assumes "0 \<le> x"
  shows "0 \<le> cdf_series x"
proof -
  have "cdf_series 0 \<le> cdf_series x"
  proof (rule DERIV_nonneg_imp_nondecreasing [OF assms])
    fix y :: real
    have "0 \<le> exp (- y\<^sup>2 / 2)" by simp
    then show "\<exists>d. (cdf_series has_real_derivative d) (at y) \<and> 0 \<le> d"
      using cdf_series_deriv by blast
  qed
  then show ?thesis by (simp add: cdf_series_zero)
qed

lemma cdf_series_comparison:
  assumes "0 \<le> th" "th < pi / 2"
  shows "cdf_series (sqrt (2 * real (Suc j)) * tan th)
      \<le> sqrt (2 * real (Suc j)) * cos_int (2 * j) th"
proof -
  define a where "a = sqrt (2 * real (Suc j))"
  have a_pos: "0 < a" by (simp add: a_def)
  have a_sq: "a\<^sup>2 = 2 * real (Suc j)" by (simp add: a_def)
  define h where "h = (\<lambda>y. a * cos_int (2 * j) y - cdf_series (a * tan y))"
  have "h 0 \<le> h th"
  proof (rule DERIV_nonneg_imp_nondecreasing [OF assms(1)])
    fix y :: real assume y: "0 \<le> y" "y \<le> th"
    have c: "0 < cos y"
      using y assms by (intro cos_gt_zero_pi) linarith+
    then have cn: "cos y \<noteq> 0" by simp
    have d1: "((\<lambda>y. a * tan y) has_real_derivative a * inverse ((cos y)\<^sup>2)) (at y)"
      by (intro DERIV_cmult DERIV_tan cn)
    have d2: "((\<lambda>y. cdf_series (a * tan y)) has_real_derivative
        exp (- (a * tan y)\<^sup>2 / 2) * (a * inverse ((cos y)\<^sup>2))) (at y)"
      by (rule DERIV_chain' [OF d1 cdf_series_deriv])
    have d3: "((\<lambda>y. a * cos_int (2 * j) y) has_real_derivative a * cos y ^ (2 * j)) (at y)"
      by (intro DERIV_cmult cos_int_deriv)
    have d: "(h has_real_derivative
        a * cos y ^ (2 * j) - exp (- (a * tan y)\<^sup>2 / 2) * (a * inverse ((cos y)\<^sup>2))) (at y)"
      unfolding h_def by (intro DERIV_diff d2 d3)
    have e: "(a * tan y)\<^sup>2 / 2 = real (Suc j) * (tan y)\<^sup>2"
      by (simp add: power_mult_distrib a_sq)
    have "exp (- (a * tan y)\<^sup>2 / 2) = exp (- (real (Suc j) * (tan y)\<^sup>2))"
      using e by simp
    also have "\<dots> \<le> (cos y)\<^sup>2 ^ Suc j"
      by (rule exp_tan_bound [OF cn])
    also have "\<dots> = cos y ^ (2 * j) * (cos y)\<^sup>2"
      by (simp add: power_mult)
    finally have "exp (- (a * tan y)\<^sup>2 / 2) \<le> cos y ^ (2 * j) * (cos y)\<^sup>2" .
    then have "exp (- (a * tan y)\<^sup>2 / 2) * inverse ((cos y)\<^sup>2)
        \<le> cos y ^ (2 * j) * (cos y)\<^sup>2 * inverse ((cos y)\<^sup>2)"
      by (intro mult_right_mono) simp_all
    also have "\<dots> = cos y ^ (2 * j)"
      using cn by simp
    finally have "a * (exp (- (a * tan y)\<^sup>2 / 2) * inverse ((cos y)\<^sup>2))
        \<le> a * cos y ^ (2 * j)"
      using a_pos by (intro mult_left_mono) simp_all
    then have "0 \<le> a * cos y ^ (2 * j)
        - exp (- (a * tan y)\<^sup>2 / 2) * (a * inverse ((cos y)\<^sup>2))"
      by (simp add: mult_ac)
    with d show "\<exists>d. (h has_real_derivative d) (at y) \<and> 0 \<le> d"
      by blast
  qed
  moreover have "h 0 = 0"
    by (simp add: h_def cos_int_zero cdf_series_zero)
  ultimately show ?thesis
    by (simp add: h_def a_def)
qed

lemma cdf_series_sq_bound:
  assumes "0 \<le> x"
  shows "(cdf_series x)\<^sup>2 \<le> pi / 2 * (real i + 2) / (real i + 1)"
proof -
  define a where "a = sqrt (2 * real (Suc (Suc i)))"
  have a_pos: "0 < a" by (simp add: a_def)
  have a_sq: "a\<^sup>2 = 2 * (real i + 2)" by (simp add: a_def)
  define th where "th = arctan (x / a)"
  have th: "0 \<le> th" "th < pi / 2"
    using assms a_pos arctan_ubound [of "x / a"] by (simp_all add: th_def)
  have x: "a * tan th = x"
    using a_pos by (simp add: th_def tan_arctan)
  have "cdf_series x \<le> a * cos_int (2 * Suc i) th"
    using cdf_series_comparison [OF th, of "Suc i"] x by (simp add: a_def)
  also have "\<dots> \<le> a * wallis (2 * Suc i)"
    unfolding wallis_def using th a_pos
    by (intro mult_left_mono cos_int_mono) simp_all
  finally have le: "cdf_series x \<le> a * wallis (Suc (2 * i + 1))"
    by simp
  have "(cdf_series x)\<^sup>2 \<le> (a * wallis (Suc (2 * i + 1)))\<^sup>2"
    using le cdf_series_nonneg [OF assms] by (intro power_mono) simp_all
  also have "\<dots> = a\<^sup>2 * (wallis (Suc (2 * i + 1)))\<^sup>2"
    by (simp add: power_mult_distrib)
  also have "\<dots> \<le> a\<^sup>2 * (pi / (2 * real (2 * i + 1 + 1)))"
    by (intro mult_left_mono wallis_sq) simp
  also have "\<dots> = pi / 2 * (real i + 2) / (real i + 1)"
    unfolding a_sq by (simp add: field_simps)
  finally show ?thesis .
qed

lemma cdf_series_le: "cdf_series x \<le> sqrt (pi / 2)"
proof (cases "0 \<le> x")
  case False
  then have "0 \<le> cdf_series (- x)"
    by (intro cdf_series_nonneg) simp
  then have "cdf_series x \<le> 0"
    by (simp add: cdf_series_def)
  also have "0 \<le> sqrt (pi / 2)" by simp
  finally show ?thesis .
next
  case True
  have "(cdf_series x)\<^sup>2 \<le> pi / 2"
  proof (rule ccontr)
    assume "\<not> (cdf_series x)\<^sup>2 \<le> pi / 2"
    then have gap: "0 < (cdf_series x)\<^sup>2 - pi / 2" by simp
    obtain n :: nat where n: "pi / 2 < real n * ((cdf_series x)\<^sup>2 - pi / 2)"
      using reals_Archimedean3 [OF gap] by blast
    have "(cdf_series x)\<^sup>2 \<le> pi / 2 * (real n + 2) / (real n + 1)"
      by (rule cdf_series_sq_bound [OF True])
    then have "(cdf_series x)\<^sup>2 * (real n + 1) \<le> pi / 2 * (real n + 2)"
      by (simp add: field_simps)
    moreover have "(real n + 1) * ((cdf_series x)\<^sup>2 - pi / 2)
        = (cdf_series x)\<^sup>2 * (real n + 1) - pi / 2 * (real n + 1)"
      by (simp add: algebra_simps)
    moreover have "pi / 2 * (real n + 2) = pi / 2 * (real n + 1) + pi / 2"
      by (simp add: field_simps)
    ultimately have "(real n + 1) * ((cdf_series x)\<^sup>2 - pi / 2) \<le> pi / 2"
      by linarith
    moreover have "real n * ((cdf_series x)\<^sup>2 - pi / 2)
        \<le> (real n + 1) * ((cdf_series x)\<^sup>2 - pi / 2)"
      using gap by (intro mult_right_mono) simp_all
    ultimately show False using n by linarith
  qed
  then show ?thesis by (rule real_le_rsqrt)
qed

lemma norm_cdf_le_one: "norm_cdf x \<le> 1"
proof -
  have "cdf_series x / sqrt (2 * pi) \<le> sqrt (pi / 2) / sqrt (2 * pi)"
    by (intro divide_right_mono cdf_series_le) simp
  also have "sqrt (pi / 2) / sqrt (2 * pi) = sqrt (pi / 2 / (2 * pi))"
    by (rule real_sqrt_divide [symmetric])
  also have "pi / 2 / (2 * pi) = (1 / 2)\<^sup>2"
    by (simp add: power2_eq_square)
  also have "sqrt ((1 / 2)\<^sup>2) = 1 / 2"
    by (simp del: power_divide)
  finally have "cdf_series x / sqrt (2 * pi) \<le> 1 / 2" .
  then show ?thesis
    unfolding norm_cdf_def by linarith
qed

lemma norm_cdf_nonneg: "0 \<le> norm_cdf x"
  using norm_cdf_le_one [of "- x"] norm_cdf_symmetry [of x] by linarith

lemma norm_cdf_deriv:
  "(norm_cdf has_real_derivative exp (- x\<^sup>2 / 2) / sqrt (2 * pi)) (at x)"
proof -
  have "((\<lambda>x. 1 / 2 + cdf_series x / sqrt (2 * pi)) has_real_derivative
      0 + exp (- x\<^sup>2 / 2) / sqrt (2 * pi)) (at x)"
    by (intro DERIV_add DERIV_const DERIV_cdivide cdf_series_deriv)
  moreover have "norm_cdf = (\<lambda>x. 1 / 2 + cdf_series x / sqrt (2 * pi))"
    by (intro ext) (simp add: norm_cdf_def)
  ultimately show ?thesis by simp
qed

text \<open>
  So \<open>norm_cdf\<close> is the antiderivative of the standard normal density that takes the
  value 1/2 at 0, it satisfies \<open>norm_cdf x + norm_cdf (- x) = 1\<close>, and it stays between 0
  and 1: the properties of the distribution function that the pricers rely on.
\<close>

lemma norm_cdf_zero: "norm_cdf 0 = 1 / 2"
  by (simp add: norm_cdf_def cdf_series_zero)

section \<open>The closed formulas as functions of the spot, over the reals\<close>

text \<open>
  The lemmas of this section are about \<open>call_formula\<close> and \<open>put_formula\<close>, the exact
  real values: the derivative of the call formula in the spot is \<open>norm_cdf d1\<close>, which
  lies between 0 and 1, so the call formula does not decrease and the put formula does not
  increase with the spot. They say nothing about the order of the doubles that the
  pricers return: the program rounds every operation, rounding is not part of this model,
  and two spots that are close enough can give doubles in the opposite order. No order
  between two results of the pricers is therefore stated in this theory.
\<close>

lemma density_identity:
  assumes "0 < s" "0 < k" "0 < t" "0 < sg"
  shows "k * exp (- rt * t) * exp (- (d2_formula s k t sg rt)\<^sup>2 / 2)
      = s * exp (- (d1_formula s k t sg rt)\<^sup>2 / 2)"
proof -
  define v where "v = sg * sqrt t"
  define d where "d = d1_formula s k t sg rt"
  have v_pos: "0 < v" using assms by (simp add: v_def)
  have v_sq: "v\<^sup>2 = sg\<^sup>2 * t"
    using assms by (simp add: v_def power_mult_distrib)
  have d_eq: "d = (ln (s / k) + (rt + 0.5 * sg\<^sup>2) * t) / v"
    unfolding d_def d1_formula_def v_def ..
  have dv: "d * v = ln (s / k) + (rt + 0.5 * sg\<^sup>2) * t"
    unfolding d_eq using v_pos by simp
  have d2: "d2_formula s k t sg rt = d - v"
    by (simp add: d2_formula_def d_def v_def)
  have "- (d - v)\<^sup>2 / 2 = - d\<^sup>2 / 2 + d * v - v\<^sup>2 / 2"
    by (simp add: power2_diff field_simps)
  also have "\<dots> = - d\<^sup>2 / 2 + ln (s / k) + rt * t"
    unfolding dv v_sq by (simp add: algebra_simps)
  finally have e: "- (d2_formula s k t sg rt)\<^sup>2 / 2 = - d\<^sup>2 / 2 + ln (s / k) + rt * t"
    unfolding d2 .
  have "exp (- d\<^sup>2 / 2 + ln (s / k) + rt * t)
      = exp (- d\<^sup>2 / 2) * exp (ln (s / k)) * exp (rt * t)"
    by (simp only: exp_add)
  moreover have "exp (ln (s / k)) = s / k"
    using assms by simp
  ultimately have "exp (- (d2_formula s k t sg rt)\<^sup>2 / 2)
      = exp (- d\<^sup>2 / 2) * (s / k) * exp (rt * t)"
    unfolding e by simp
  then have "k * exp (- rt * t) * exp (- (d2_formula s k t sg rt)\<^sup>2 / 2)
      = s * exp (- d\<^sup>2 / 2) * (exp (- rt * t) * exp (rt * t))"
    using assms by simp
  also have "exp (- rt * t) * exp (rt * t) = 1"
    by (simp flip: exp_add)
  finally show ?thesis by (simp add: d_def)
qed

lemma d1_deriv:
  assumes "0 < s" "0 < k" "0 < t" "0 < sg"
  shows "((\<lambda>s. d1_formula s k t sg rt) has_real_derivative 1 / (s * (sg * sqrt t))) (at s)"
proof -
  have "((\<lambda>s. (ln (s / k) + (rt + 0.5 * sg\<^sup>2) * t) / (sg * sqrt t)) has_real_derivative
      1 / (s * (sg * sqrt t))) (at s)"
    using assms by (auto intro!: derivative_eq_intros simp: field_simps)
  then show ?thesis
    unfolding d1_formula_def .
qed

lemma call_formula_deriv:
  assumes "0 < s" "0 < k" "0 < t" "0 < sg"
  shows "((\<lambda>s. call_formula s k t sg rt) has_real_derivative
      norm_cdf (d1_formula s k t sg rt)) (at s)"
proof -
  define v where "v = sg * sqrt t"
  have v_pos: "0 < v" using assms by (simp add: v_def)
  let ?d1 = "d1_formula s k t sg rt" and ?d2 = "d2_formula s k t sg rt"
  have D1: "((\<lambda>s. d1_formula s k t sg rt) has_real_derivative 1 / (s * v)) (at s)"
    unfolding v_def by (rule d1_deriv [OF assms])
  have D2: "((\<lambda>s. d2_formula s k t sg rt) has_real_derivative 1 / (s * v)) (at s)"
  proof -
    have "((\<lambda>s. d1_formula s k t sg rt - sg * sqrt t) has_real_derivative 1 / (s * v) - 0) (at s)"
      by (intro DERIV_diff D1 DERIV_const)
    then show ?thesis
      unfolding d2_formula_def by simp
  qed
  have P1: "((\<lambda>s. norm_cdf (d1_formula s k t sg rt)) has_real_derivative
      exp (- ?d1\<^sup>2 / 2) / sqrt (2 * pi) * (1 / (s * v))) (at s)"
    by (rule DERIV_chain' [OF D1 norm_cdf_deriv])
  have P2: "((\<lambda>s. norm_cdf (d2_formula s k t sg rt)) has_real_derivative
      exp (- ?d2\<^sup>2 / 2) / sqrt (2 * pi) * (1 / (s * v))) (at s)"
    by (rule DERIV_chain' [OF D2 norm_cdf_deriv])
  have A: "((\<lambda>s. s * norm_cdf (d1_formula s k t sg rt)) has_real_derivative
      1 * norm_cdf ?d1 + exp (- ?d1\<^sup>2 / 2) / sqrt (2 * pi) * (1 / (s * v)) * s) (at s)"
    by (rule DERIV_mult [OF DERIV_ident P1])
  have B: "((\<lambda>s. k * exp (- rt * t) * norm_cdf (d2_formula s k t sg rt)) has_real_derivative
      k * exp (- rt * t) * (exp (- ?d2\<^sup>2 / 2) / sqrt (2 * pi) * (1 / (s * v)))) (at s)"
    by (rule DERIV_cmult [OF P2])
  have C: "((\<lambda>s. call_formula s k t sg rt) has_real_derivative
      (1 * norm_cdf ?d1 + exp (- ?d1\<^sup>2 / 2) / sqrt (2 * pi) * (1 / (s * v)) * s)
      - k * exp (- rt * t) * (exp (- ?d2\<^sup>2 / 2) / sqrt (2 * pi) * (1 / (s * v)))) (at s)"
    unfolding call_formula_def by (rule DERIV_diff [OF A B])
  have "k * exp (- rt * t) * (exp (- ?d2\<^sup>2 / 2) / sqrt (2 * pi) * (1 / (s * v)))
      = (k * exp (- rt * t) * exp (- ?d2\<^sup>2 / 2)) / sqrt (2 * pi) * (1 / (s * v))"
    by simp
  also have "\<dots> = (s * exp (- ?d1\<^sup>2 / 2)) / sqrt (2 * pi) * (1 / (s * v))"
    unfolding density_identity [OF assms] ..
  also have "\<dots> = exp (- ?d1\<^sup>2 / 2) / sqrt (2 * pi) * (1 / (s * v)) * s"
    by simp
  finally have "(1 * norm_cdf ?d1 + exp (- ?d1\<^sup>2 / 2) / sqrt (2 * pi) * (1 / (s * v)) * s)
      - k * exp (- rt * t) * (exp (- ?d2\<^sup>2 / 2) / sqrt (2 * pi) * (1 / (s * v)))
      = norm_cdf ?d1"
    by simp
  with C show ?thesis by simp
qed

lemma call_formula_mono:
  assumes "0 < k" "0 < t" "0 < sg" "0 < s1" "s1 \<le> s2"
  shows "call_formula s1 k t sg rt \<le> call_formula s2 k t sg rt"
proof (rule DERIV_nonneg_imp_nondecreasing
    [where f = "\<lambda>s. call_formula s k t sg rt", OF assms(5)])
  fix s assume "s1 \<le> s" "s \<le> s2"
  then have "0 < s" using assms by linarith
  from call_formula_deriv [OF this assms(1-3)] norm_cdf_nonneg
  show "\<exists>y. ((\<lambda>s. call_formula s k t sg rt) has_real_derivative y) (at s) \<and> 0 \<le> y"
    by blast
qed

lemma put_formula_antimono:
  assumes "0 < k" "0 < t" "0 < sg" "0 < s1" "s1 \<le> s2"
  shows "put_formula s2 k t sg rt \<le> put_formula s1 k t sg rt"
proof -
  have eq: "put_formula s k t sg rt = call_formula s k t sg rt - s + k * exp (- rt * t)" for s
    using formula_parity [of s k t sg rt] by linarith
  have "s1 - call_formula s1 k t sg rt \<le> s2 - call_formula s2 k t sg rt"
  proof (rule DERIV_nonneg_imp_nondecreasing
      [where f = "\<lambda>s. s - call_formula s k t sg rt", OF assms(5)])
    fix s assume "s1 \<le> s" "s \<le> s2"
    then have s: "0 < s" using assms by linarith
    have "((\<lambda>s. s - call_formula s k t sg rt) has_real_derivative
        1 - norm_cdf (d1_formula s k t sg rt)) (at s)"
      by (rule DERIV_diff [OF DERIV_ident call_formula_deriv [OF s assms(1-3)]])
    moreover have "0 \<le> 1 - norm_cdf (d1_formula s k t sg rt)"
      using norm_cdf_le_one [of "d1_formula s k t sg rt"] by simp
    ultimately show "\<exists>y. ((\<lambda>s. s - call_formula s k t sg rt) has_real_derivative y) (at s)
        \<and> 0 \<le> y"
      by blast
  qed
  then show ?thesis
    unfolding eq by linarith
qed

section \<open>The claims\<close>

text \<open>
  C1. Put-call parity: when the effective spot, the strike, the effective maturity and the
  effective volatility are positive, whatever the rate, the call pricer and the put pricer
  called with the same arguments both return a number, and the call price minus the put
  price is the spot minus the discounted strike, \<open>S - K exp (- r T)\<close>.
\<close>

theorem put_call_parity:
  assumes "0 < effective S_arg (S self)" and "0 < K self"
    and "0 < effective T_arg (T self)" and "0 < effective sigma_arg (sigma self)"
  shows "\<exists>c p. fst (black_scholes_european_call S_arg T_arg sigma_arg self) = Inr (Some c)
     \<and> fst (black_scholes_european_put S_arg T_arg sigma_arg self) = Inr (Some p)
     \<and> c - p = effective S_arg (S self) - K self * exp (- r self * effective T_arg (T self))"
  using call_in_domain [OF assms] put_in_domain [OF assms] formula_parity by blast

theorem put_call_parity_witness:
  "(0::real) < 100 \<and> (0::real) < 1 \<and> (0::real) < 2 / 10
   \<and> (\<exists>c p. fst (black_scholes_european_call None None None
                 (init 100 100 1 (2 / 10) (5 / 100))) = Inr (Some c)
     \<and> fst (black_scholes_european_put None None None
                 (init 100 100 1 (2 / 10) (5 / 100))) = Inr (Some p)
     \<and> c - p = 100 - 100 * exp (- (5 / 100)))"
  using put_call_parity [of None "init 100 100 1 (2 / 10) (5 / 100)" None None]
  by (simp add: effective_def init_def)

text \<open>
  C2. An unrecognised kind should be reported as an invalid argument by every operation
  that takes one. The implied-volatility method does not do so: for the kind
  \<open>straddle\<close> its objective returns Python's \<open>None\<close> at every point and raises nothing,
  so the outcome of the method is whatever the root finder makes of an objective that is
  constantly \<open>None\<close>.
\<close>

theorem implied_volatility_unknown_kind:
  "implied_volatility_func 10 ''straddle'' (2 / 10) (init 100 100 1 (2 / 10) (5 / 100))
     = (Inr PyNone, init 100 100 1 (2 / 10) (5 / 100))
   \<and> calculate_implied_volatility newton 10 (Some ''straddle'')
       (init 100 100 1 (2 / 10) (5 / 100))
     = run_solver (newton (2 / 10)) (\<lambda>x s. (Inr PyNone, s))
         (init 100 100 1 (2 / 10) (5 / 100))"
proof -
  have "implied_volatility_func 10 ''straddle'' = (\<lambda>x s. (Inr PyNone, s))"
    by (intro ext) (simp add: implied_volatility_func_def)
  then show ?thesis
    by (simp add: calculate_implied_volatility_def)
qed

text \<open>
  C3. The dispatcher returns what the call pricer returns on the stored spot, maturity and
  volatility for the kind \<open>call\<close>, what the put pricer returns on them for the kind
  \<open>put\<close>, and raises \<open>ValueError\<close> for any other kind, \<open>straddle\<close> among them.
\<close>

theorem dispatcher_routes:
  "calculate_black_scholes_option_price (Some ''call'') self =
     black_scholes_european_call (Some (S self)) (Some (T self)) (Some (sigma self)) self
   \<and> calculate_black_scholes_option_price (Some ''put'') self =
     black_scholes_european_put (Some (S self)) (Some (T self)) (Some (sigma self)) self
   \<and> (k \<noteq> ''call'' \<and> k \<noteq> ''put'' \<longrightarrow>
        calculate_black_scholes_option_price (Some k) self = (Inl ValueError, self))
   \<and> calculate_black_scholes_option_price (Some ''straddle'') self = (Inl ValueError, self)"
  by (simp add: calculate_black_scholes_option_price_def black_scholes_european_call_def
      black_scholes_european_put_def)

theorem dispatcher_routes_witness:
  "''strangle'' \<noteq> ''call'' \<and> ''strangle'' \<noteq> ''put''
   \<and> calculate_black_scholes_option_price (Some ''strangle'')
         (init 100 100 1 (2 / 10) (5 / 100))
       = (Inl ValueError, init 100 100 1 (2 / 10) (5 / 100))"
  using dispatcher_routes [of "init 100 100 1 (2 / 10) (5 / 100)" "''strangle''"] by simp

text \<open>
  C4. For the kinds \<open>call\<close> and \<open>put\<close>, delta is the forward difference quotient of the
  pricer of that kind in the spot: the price at the stored spot plus 0.001 minus the price
  at the stored spot, over 0.001, the other parameters being the stored ones.
\<close>

theorem delta_forward_difference:
  "fst (calculate_delta (Some ''call'') self) =
     difference_quotient
       (fst (black_scholes_european_call (Some (S self + 0.001)) None None self))
       (fst (black_scholes_european_call None None None self)) 0.001
   \<and> fst (calculate_delta (Some ''put'') self) =
     difference_quotient
       (fst (black_scholes_european_put (Some (S self + 0.001)) None None self))
       (fst (black_scholes_european_put None None None self)) 0.001"
  by (intro conjI delta_call_value delta_put_value)

text \<open>
  C5. For the kinds \<open>call\<close> and \<open>put\<close>, theta is the difference quotient of the pricer of
  that kind in the maturity, one trading day back: the price at the stored maturity minus
  1/252, minus the price at the stored maturity, over 1/252.
\<close>

theorem theta_backward_difference:
  "fst (calculate_theta (Some ''call'') self) =
     difference_quotient
       (fst (black_scholes_european_call None (Some (T self - 1 / 252)) None self))
       (fst (black_scholes_european_call None None None self)) (1 / 252)
   \<and> fst (calculate_theta (Some ''put'') self) =
     difference_quotient
       (fst (black_scholes_european_put None (Some (T self - 1 / 252)) None self))
       (fst (black_scholes_european_put None None None self)) (1 / 252)"
  by (intro conjI theta_call_value theta_put_value)

text \<open>
  C6. Gamma is the central second difference of the call pricer in the spot and vega the
  forward difference quotient of the call pricer in the volatility, both with step 0.001.
  Neither method has a kind parameter, and both are functions of call prices alone.
\<close>

theorem gamma_vega_call_only:
  "fst (calculate_gamma self) =
     second_difference
       (fst (black_scholes_european_call (Some (S self + 0.001)) None None self))
       (fst (black_scholes_european_call None None None self))
       (fst (black_scholes_european_call (Some (S self - 0.001)) None None self)) 0.001
   \<and> fst (calculate_vega self) =
     difference_quotient
       (fst (black_scholes_european_call None None (Some (sigma self + 0.001)) self))
       (fst (black_scholes_european_call None None None self)) 0.001"
  by (intro conjI gamma_value vega_value)

text \<open>
  C7. No public method changes an attribute: after each of the eight methods the object
  is the object before the call, whatever the arguments and whatever the root finder. A
  pricer called with overrides returns what it returns, without overrides, on the object
  with spot, maturity and volatility replaced by their effective values; the strike and
  the rate are those stored, since the pricers take no argument for them.
\<close>

theorem no_call_changes_the_attributes:
  "snd (black_scholes_european_call S_arg T_arg sigma_arg self) = self
   \<and> snd (black_scholes_european_put S_arg T_arg sigma_arg self) = self
   \<and> snd (calculate_black_scholes_option_price option_type self) = self
   \<and> snd (calculate_implied_volatility newton market_price option_type self) = self
   \<and> snd (calculate_delta option_type self) = self
   \<and> snd (calculate_gamma self) = self
   \<and> snd (calculate_theta option_type self) = self
   \<and> snd (calculate_vega self) = self
   \<and> fst (black_scholes_european_call S_arg T_arg sigma_arg self) =
       fst (black_scholes_european_call None None None
         (self\<lparr>S := effective S_arg (S self), T := effective T_arg (T self),
                sigma := effective sigma_arg (sigma self)\<rparr>))
   \<and> fst (black_scholes_european_put S_arg T_arg sigma_arg self) =
       fst (black_scholes_european_put None None None
         (self\<lparr>S := effective S_arg (S self), T := effective T_arg (T self),
                sigma := effective sigma_arg (sigma self)\<rparr>))"
  by (intro conjI call_frame put_frame dispatcher_frame implied_volatility_frame delta_frame
      gamma_frame theta_frame vega_frame call_override put_override)

text \<open>
  C9. Each of the four methods with a kind parameter, called without it, does what it does
  for the kind \<open>call\<close>.
\<close>

theorem omitted_kind_is_call:
  "calculate_black_scholes_option_price None self =
     calculate_black_scholes_option_price (Some ''call'') self
   \<and> calculate_implied_volatility newton market_price None self =
     calculate_implied_volatility newton market_price (Some ''call'') self
   \<and> calculate_delta None self = calculate_delta (Some ''call'') self
   \<and> calculate_theta None self = calculate_theta (Some ''call'') self"
  by (simp add: calculate_black_scholes_option_price_def calculate_implied_volatility_def
      calculate_delta_def calculate_theta_def)

text \<open>
  C10. With positive spot, strike, volatility and maturity: when the maturity is at most
  1/252, theta calls the pricer at the maturity \<open>T - 1/252\<close>, which is not positive, the
  pricer has no real value there (the square root or the quotient by \<open>sigma sqrt T\<close> is
  undefined), and neither has theta; when the maturity is above 1/252, theta is a number.
\<close>

theorem theta_needs_a_trading_day:
  assumes "0 < S self" and "0 < K self" and "0 < sigma self" and "0 < T self"
  shows "(T self \<le> 1 / 252 \<longrightarrow>
            fst (black_scholes_european_call None (Some (T self - 1 / 252)) None self)
              = Inr None
          \<and> fst (black_scholes_european_put None (Some (T self - 1 / 252)) None self)
              = Inr None
          \<and> fst (calculate_theta (Some ''call'') self) = Inr None
          \<and> fst (calculate_theta (Some ''put'') self) = Inr None)
     \<and> (1 / 252 < T self \<longrightarrow>
            (\<exists>v. fst (calculate_theta (Some ''call'') self) = Inr (Some v))
          \<and> (\<exists>v. fst (calculate_theta (Some ''put'') self) = Inr (Some v)))"
proof (intro conjI impI)
  assume le: "T self \<le> 1 / 252"
  have k: "K self \<noteq> 0" using assms by simp
  have e: "effective (Some (T self - 1 / 252)) (T self) \<le> 0"
    using le by (simp add: effective_def)
  show c: "fst (black_scholes_european_call None (Some (T self - 1 / 252)) None self)
      = Inr None"
    using call_off_domain [OF k e] .
  show p: "fst (black_scholes_european_put None (Some (T self - 1 / 252)) None self)
      = Inr None"
    using put_off_domain [OF k e] .
  have c0: "\<exists>v. fst (black_scholes_european_call None None None self) = Inr v"
    using call_in_domain [of None self None None] assms by (simp add: effective_def)
  have p0: "\<exists>v. fst (black_scholes_european_put None None None self) = Inr v"
    using put_in_domain [of None self None None] assms by (simp add: effective_def)
  show "fst (calculate_theta (Some ''call'') self) = Inr None"
    using c c0 theta_call_value [of self]
    by (auto simp: difference_quotient_def np_sub_def np_div_def)
  show "fst (calculate_theta (Some ''put'') self) = Inr None"
    using p p0 theta_put_value [of self]
    by (auto simp: difference_quotient_def np_sub_def np_div_def)
next
  assume gt: "1 / 252 < T self"
  have c: "\<exists>v. fst (black_scholes_european_call None (Some (T self - 1 / 252)) None self)
      = Inr (Some v)"
    using call_in_domain [of None self "Some (T self - 1 / 252)" None] assms gt
    by (simp add: effective_def)
  have c0: "\<exists>v. fst (black_scholes_european_call None None None self) = Inr (Some v)"
    using call_in_domain [of None self None None] assms by (simp add: effective_def)
  show "\<exists>v. fst (calculate_theta (Some ''call'') self) = Inr (Some v)"
    using c c0 theta_call_value [of self]
    by (auto simp: difference_quotient_def np_sub_def np_div_def)
  have p: "\<exists>v. fst (black_scholes_european_put None (Some (T self - 1 / 252)) None self)
      = Inr (Some v)"
    using put_in_domain [of None self "Some (T self - 1 / 252)" None] assms gt
    by (simp add: effective_def)
  have p0: "\<exists>v. fst (black_scholes_european_put None None None self) = Inr (Some v)"
    using put_in_domain [of None self None None] assms by (simp add: effective_def)
  show "\<exists>v. fst (calculate_theta (Some ''put'') self) = Inr (Some v)"
    using p p0 theta_put_value [of self]
    by (auto simp: difference_quotient_def np_sub_def np_div_def)
qed

theorem theta_needs_a_trading_day_witness:
  "(0::real) < 100 \<and> (0::real) < 2 / 10 \<and> (0::real) < 1 / 504 \<and> (1::real) / 504 \<le> 1 / 252
   \<and> fst (calculate_theta (Some ''call'') (init 100 100 (1 / 504) (2 / 10) (5 / 100)))
       = Inr None
   \<and> fst (calculate_theta (Some ''put'') (init 100 100 (1 / 504) (2 / 10) (5 / 100)))
       = Inr None
   \<and> (1::real) / 252 < 1
   \<and> (\<exists>v. fst (calculate_theta (Some ''call'') (init 100 100 1 (2 / 10) (5 / 100)))
       = Inr (Some v))"
  using theta_needs_a_trading_day [of "init 100 100 (1 / 504) (2 / 10) (5 / 100)"]
    theta_needs_a_trading_day [of "init 100 100 1 (2 / 10) (5 / 100)"]
  by (simp add: init_def)

end
